theory Spec2Isabelle
  imports Main
begin

section \<open>Strings and arrays of the host language\<close>

text \<open>
  Strings are character lists. The functions of this section are the library operations
  the generator calls on strings and arrays: \<^verbatim>\<open>replaceAll\<close>, \<^verbatim>\<open>split\<close>, \<^verbatim>\<open>join\<close>, \<^verbatim>\<open>pop\<close>,
  \<^verbatim>\<open>toLowerCase\<close>, \<^verbatim>\<open>map\<close> with an index, and the decimal text of a number inside a
  template literal.
\<close>

definition slash :: char where
  "slash = CHR 0x2F"

definition backslash :: char where
  "backslash = CHR 0x5C"

definition dot :: char where
  "dot = CHR 0x2E"

definition newline :: char where
  "newline = CHR 0x0A"

definition single_quote :: char where
  "single_quote = CHR 0x27"

definition double_quote :: char where
  "double_quote = CHR 0x22"

text \<open>
  \<^verbatim>\<open>s.replaceAll(pat, rep)\<close> with a string pattern: the occurrences of \<open>pat\<close> are found
  from left to right, the search going on behind each occurrence found, so occurrences
  do not overlap and the replacement text is not searched again. An empty pattern
  matches before every character and at the end.
\<close>

function replaceAll :: "string \<Rightarrow> string \<Rightarrow> string \<Rightarrow> string" where
  "replaceAll pat rep s =
     (if pat = [] then (case s of [] \<Rightarrow> rep | x # xs \<Rightarrow> rep @ x # replaceAll pat rep xs)
      else if take (length pat) s = pat then rep @ replaceAll pat rep (drop (length pat) s)
      else (case s of [] \<Rightarrow> [] | x # xs \<Rightarrow> x # replaceAll pat rep xs))"
  by pat_completeness auto
termination
proof (relation "measure (\<lambda>(pat, rep, s). length s)")
  fix pat rep s :: string
  assume "pat \<noteq> []" and "take (length pat) s = pat"
  then have "s \<noteq> []" and "0 < length pat"
    by auto
  then show "((pat, rep, drop (length pat) s), (pat, rep, s)) \<in> measure (\<lambda>(pat, rep, s). length s)"
    by simp
qed auto

declare replaceAll.simps [simp del]

text \<open>
  \<^verbatim>\<open>s.split(c)\<close> for a separator of one character: the pieces between the separators,
  always at least one piece (the empty string splits into one empty piece).
\<close>

fun split_str :: "char \<Rightarrow> string \<Rightarrow> string list" where
  "split_str c [] = [[]]"
| "split_str c (x # xs) =
     (if x = c then [] # split_str c xs
      else (case split_str c xs of [] \<Rightarrow> [[x]] | p # ps \<Rightarrow> (x # p) # ps))"

text \<open>\<^verbatim>\<open>a.join(sep)\<close>: the elements with \<open>sep\<close> between them; the empty array gives the empty string.\<close>

fun join_str :: "string \<Rightarrow> string list \<Rightarrow> string" where
  "join_str sep [] = []"
| "join_str sep [x] = x"
| "join_str sep (x # y # ys) = x @ sep @ join_str sep (y # ys)"

text \<open>
  \<^verbatim>\<open>a.pop()\<close> removes the last element and returns it; on an empty array it returns
  \<^verbatim>\<open>undefined\<close> (here \<open>None\<close>) and leaves the array empty. The pair is the value
  returned and the array afterwards.
\<close>

definition pop :: "'a list \<Rightarrow> 'a option \<times> 'a list" where
  "pop xs = (if xs = [] then (None, []) else (Some (last xs), butlast xs))"

text \<open>
  \<^verbatim>\<open>toLowerCase\<close>: the letters \<open>A\<close> to \<open>Z\<close> go to \<open>a\<close> to \<open>z\<close>; every other character of
  the model stays. (No character outside \<open>A\<close> to \<open>Z\<close> has \<open>j\<close>, \<open>s\<close> or \<open>t\<close> as its lower
  case, so the comparisons the generator makes on the result are those of the host.)
\<close>

definition toLowerCase_char :: "char \<Rightarrow> char" where
  "toLowerCase_char c =
     (case map_of (zip ''ABCDEFGHIJKLMNOPQRSTUVWXYZ'' ''abcdefghijklmnopqrstuvwxyz'') c of
        Some l \<Rightarrow> l
      | None \<Rightarrow> c)"

definition toLowerCase :: "string \<Rightarrow> string" where
  "toLowerCase s = map toLowerCase_char s"

text \<open>\<^verbatim>\<open>a.map((x, i) => f(x, i))\<close>: the callback receives the element and its 0-based index.\<close>

fun map_from :: "('a \<Rightarrow> nat \<Rightarrow> 'b) \<Rightarrow> nat \<Rightarrow> 'a list \<Rightarrow> 'b list" where
  "map_from f i [] = []"
| "map_from f i (x # xs) = f x i # map_from f (Suc i) xs"

definition map_index :: "('a \<Rightarrow> nat \<Rightarrow> 'b) \<Rightarrow> 'a list \<Rightarrow> 'b list" where
  "map_index f xs = map_from f 0 xs"

text \<open>The decimal text of a natural number, as a template literal prints an array index plus one.\<close>

definition digit_char :: "nat \<Rightarrow> char" where
  "digit_char d = ''0123456789'' ! d"

fun string_of_nat :: "nat \<Rightarrow> string" where
  "string_of_nat n =
     (if n < 10 then [digit_char n] else string_of_nat (n div 10) @ [digit_char (n mod 10)])"

declare string_of_nat.simps [simp del]

text \<open>
  \<^verbatim>\<open>a || b\<close> on an optional string: \<open>b\<close> when \<open>a\<close> is absent or the empty string,
  which are the two falsy values of that type.
\<close>

definition or_else :: "string option \<Rightarrow> string \<Rightarrow> string" where
  "or_else a b = (case a of None \<Rightarrow> b | Some s \<Rightarrow> if s = [] then b else s)"

section \<open>The generator\<close>

subsection \<open>Path clean-up\<close>

text \<open>\<^verbatim>\<open>cleanupPath\<close>: first every \<^verbatim>\<open>/./\<close> found becomes \<^verbatim>\<open>/\<close>, then every backslash becomes a slash.\<close>

definition cleanupPath :: "string \<Rightarrow> string" where
  "cleanupPath path =
     replaceAll [backslash] [slash] (replaceAll [slash, dot, slash] [slash] path)"

subsection \<open>Configuration, directory entries and the outside world\<close>

text \<open>The \<^verbatim>\<open>quotes\<close> option has the two values the type \<^verbatim>\<open>'"' | "'"\<close> allows.\<close>

datatype quote = DoubleQuote | SingleQuote

fun quote_text :: "quote \<Rightarrow> string" where
  "quote_text DoubleQuote = [double_quote]"
| "quote_text SingleQuote = [single_quote]"

text \<open>
  \<^verbatim>\<open>Options\<close>. \<open>generate\<close> is the object from source folder to destination file, kept as
  the list of its key and value pairs; the three other options may be absent.
\<close>

record options =
  generate :: "(string \<times> string) list"
  autoformat :: "bool option"
  autoformatCommand :: "string option"
  quotes :: "quote option"

text \<open>What \<^verbatim>\<open>readdir\<close> with \<^verbatim>\<open>withFileTypes\<close> yields for one entry.\<close>

record dirent =
  name :: string
  parentPath :: string
  isDirectory :: bool

text \<open>The object the generator builds from an entry: \<^verbatim>\<open>{ name, path, directory }\<close>.\<close>

record scanned_file =
  file_name :: string
  file_path :: string
  file_directory :: bool

datatype fault = Fault string

text \<open>
  The outside world of one trigger: the listing \<^verbatim>\<open>fs.readdir\<close> gives for a folder
  or the fault it rejects with, the function \<^verbatim>\<open>path.relative\<close> of the host, the fault
  \<^verbatim>\<open>fs.writeFile\<close> rejects with for a path (if any), and the error the completion
  callback of \<^verbatim>\<open>exec\<close> receives for a command (if any).
\<close>

record world =
  readdir :: "string \<Rightarrow> fault + dirent list"
  relative :: "string \<Rightarrow> string \<Rightarrow> string"
  writeFile_fault :: "string \<Rightarrow> fault option"
  exec_error :: "string \<Rightarrow> fault option"

subsection \<open>Scan, filter and specifiers\<close>

text \<open>The destination's containing directory: split on \<^verbatim>\<open>/\<close>, pop, join.\<close>

definition destinationPath_of :: "string \<Rightarrow> string" where
  "destinationPath_of destination =
     (let dPathArray = split_str slash destination
      in join_str [slash] (snd (pop dPathArray)))"

text \<open>The \<^verbatim>\<open>map\<close> and \<^verbatim>\<open>filter\<close> applied to the listing.\<close>

definition scan_files :: "dirent list \<Rightarrow> scanned_file list" where
  "scan_files entries =
     filter (\<lambda>paths. \<not> file_directory paths)
       (map (\<lambda>folders. \<lparr>file_name = name folders,
                          file_path = cleanupPath (parentPath folders),
                          file_directory = isDirectory folders\<rparr>) entries)"

text \<open>
  The body of \<^verbatim>\<open>files.forEach\<close>, on the array \<open>listOfImports\<close> it pushes to: each
  \<^verbatim>\<open>return\<close> leaves the array as it is.
\<close>

definition push_import ::
  "(string \<Rightarrow> string \<Rightarrow> string) \<Rightarrow> string \<Rightarrow> scanned_file \<Rightarrow> string list \<Rightarrow> string list" where
  "push_import rel destinationPath file listOfImports =
     (case pop (split_str dot (file_name file)) of
        (popped, filenameNoExtension) \<Rightarrow>
          (case map_option toLowerCase popped of
             None \<Rightarrow> listOfImports
           | Some fileExtension \<Rightarrow>
               if fileExtension = [] then listOfImports
               else if fileExtension \<noteq> ''js'' \<and> fileExtension \<noteq> ''ts'' then listOfImports
               else
                 (let normalizedPath = cleanupPath (rel destinationPath (file_path file))
                  in listOfImports @
                       [''./'' @ normalizedPath @ ''/'' @ join_str [dot] filenameNoExtension])))"

definition listOfImports_of ::
  "(string \<Rightarrow> string \<Rightarrow> string) \<Rightarrow> string \<Rightarrow> dirent list \<Rightarrow> string list" where
  "listOfImports_of rel destinationPath entries =
     fold (push_import rel destinationPath) (scan_files entries) []"

subsection \<open>The manifest text\<close>

definition quote_of :: "quote option \<Rightarrow> string" where
  "quote_of q = (case q of None \<Rightarrow> [single_quote] | Some c \<Rightarrow> quote_text c)"

definition import_line :: "quote option \<Rightarrow> string \<Rightarrow> nat \<Rightarrow> string" where
  "import_line q importation i =
     ''import route'' @ string_of_nat (i + 1) @ '' from '' @ quote_of q @ importation @
     quote_of q @ '';''"

definition import_statements :: "quote option \<Rightarrow> string list \<Rightarrow> string list" where
  "import_statements q listOfImports = map_index (import_line q) listOfImports"

definition export_names :: "string list \<Rightarrow> string list" where
  "export_names listOfImports = map_index (\<lambda>i j. ''route'' @ string_of_nat (j + 1)) listOfImports"

definition export_line :: "string list \<Rightarrow> string" where
  "export_line listOfImports =
     ''export default ['' @ join_str '', '' (export_names listOfImports) @ ''];''"

definition importsListFormatted :: "quote option \<Rightarrow> string list \<Rightarrow> string list" where
  "importsListFormatted q listOfImports =
     import_statements q listOfImports @ [[]] @ [export_line listOfImports] @ [[]]"

definition generatedJsTsFile :: "quote option \<Rightarrow> string list \<Rightarrow> string" where
  "generatedJsTsFile q listOfImports = join_str [newline] (importsListFormatted q listOfImports)"

subsection \<open>One mapping, and the trigger\<close>

text \<open>
  What the asynchronous function for one folder does, as a record: the calls it makes to
  the outside world in their order, how its promise settles, what the formatter's
  completion callback does when \<^verbatim>\<open>exec\<close> has been called, and the file a completed
  \<^verbatim>\<open>writeFile\<close> has written.
\<close>

datatype effect = ReadDir string | WriteFile string string | Exec string

datatype settled = Fulfilled | Rejected fault

datatype callback = Returned | Thrown fault

record run =
  effects :: "effect list"
  promise :: settled
  formatter :: "callback option"
  written :: "(string \<times> string) option"

definition default_command :: "string \<Rightarrow> string" where
  "default_command destination = ''prettier '' @ [double_quote] @ destination @ [double_quote] @ '' --write''"

definition handle_mapping :: "options \<Rightarrow> world \<Rightarrow> string \<Rightarrow> string \<Rightarrow> run" where
  "handle_mapping opts w folder target =
     (let destination = cleanupPath target;
          destinationPath = destinationPath_of destination
      in case readdir w folder of
           Inl e \<Rightarrow>
             \<lparr>effects = [ReadDir folder], promise = Rejected e, formatter = None, written = None\<rparr>
         | Inr entries \<Rightarrow>
             (let listOfImports = listOfImports_of (relative w) destinationPath entries;
                  text = generatedJsTsFile (quotes opts) listOfImports
              in case writeFile_fault w destination of
                   Some e \<Rightarrow>
                     \<lparr>effects = [ReadDir folder, WriteFile destination text],
                      promise = Rejected e, formatter = None, written = None\<rparr>
                 | None \<Rightarrow>
                     if autoformat opts \<noteq> Some True then
                       \<lparr>effects = [ReadDir folder, WriteFile destination text],
                        promise = Fulfilled, formatter = None,
                        written = Some (destination, text)\<rparr>
                     else
                       (let command = or_else (autoformatCommand opts) (default_command destination)
                        in \<lparr>effects = [ReadDir folder, WriteFile destination text, Exec command],
                            promise = Fulfilled,
                            formatter =
                              Some (case exec_error w command of
                                      None \<Rightarrow> Returned
                                    | Some err \<Rightarrow> Thrown err),
                            written = Some (destination, text)\<rparr>)))"

text \<open>
  The destination files: a store from paths to contents. A run whose \<^verbatim>\<open>writeFile\<close> has
  completed replaces the content stored under its destination.
\<close>

type_synonym files = "string \<rightharpoonup> string"

definition commit :: "run \<Rightarrow> files \<Rightarrow> files" where
  "commit r store = (case written r of None \<Rightarrow> store | Some (d, t) \<Rightarrow> store(d \<mapsto> t))"

text \<open>
  What \<^verbatim>\<open>fs.readdir\<close> lists depends on the files there are at the moment of the scan,
  the destination files among them: \<open>ls\<close> gives the listing of a folder for a store, and
  a mapping scanning at store \<open>s\<close> sees the world with that listing.
\<close>

definition world_at :: "world \<Rightarrow> (files \<Rightarrow> string \<Rightarrow> fault + dirent list) \<Rightarrow> files \<Rightarrow> world" where
  "world_at w ls s = w\<lparr>readdir := ls s\<rparr>"

text \<open>
  \<^verbatim>\<open>handleHotUpdate\<close> starts one asynchronous function for every key of \<open>generate\<close>
  and waits for none of them. Each of them reads its listing at some moment and its
  write lands at some later moment, and these moments interleave freely between the
  mappings. A schedule is the order of these events: \<open>Scan i\<close> is the moment the
  mapping at position \<open>i\<close> of \<open>generate\<close> obtains its listing (and with it the text it
  is going to write), \<open>Complete i\<close> the moment its write lands and the function
  finishes. A step that is not due (a second scan, a completion before the scan, a
  position that does not exist) changes nothing.
\<close>

datatype progress = Idle | Scanned run | Settled

datatype step = Scan nat | Complete nat

record trigger =
  files_now :: files
  progress_of :: "nat \<Rightarrow> progress"

definition do_step ::
  "options \<Rightarrow> world \<Rightarrow> (files \<Rightarrow> string \<Rightarrow> fault + dirent list) \<Rightarrow> step \<Rightarrow> trigger \<Rightarrow> trigger" where
  "do_step opts w ls st tr =
     (case st of
        Scan i \<Rightarrow>
          if i < length (generate opts) \<and> progress_of tr i = Idle then
            (case generate opts ! i of
               (folder, target) \<Rightarrow>
                 tr\<lparr>progress_of := (progress_of tr)
                      (i := Scanned (handle_mapping opts (world_at w ls (files_now tr)) folder target))\<rparr>)
          else tr
      | Complete i \<Rightarrow>
          (case progress_of tr i of
             Scanned r \<Rightarrow>
               tr\<lparr>files_now := commit r (files_now tr),
                  progress_of := (progress_of tr)(i := Settled)\<rparr>
           | Idle \<Rightarrow> tr
           | Settled \<Rightarrow> tr))"

definition handleHotUpdate ::
  "options \<Rightarrow> world \<Rightarrow> (files \<Rightarrow> string \<Rightarrow> fault + dirent list) \<Rightarrow> step list \<Rightarrow> files \<Rightarrow> trigger" where
  "handleHotUpdate opts w ls sched s =
     fold (do_step opts w ls) sched \<lparr>files_now = s, progress_of = (\<lambda>i. Idle)\<rparr>"


section \<open>Notions of the specification\<close>

text \<open>
  The specification speaks of the final dot-separated segment of a name (its extension),
  of the name without that segment, and of an extension that is \<^verbatim>\<open>js\<close> or \<^verbatim>\<open>ts\<close> once
  lower-cased. They are defined here on the name itself, without \<^verbatim>\<open>split\<close>: the final
  segment is what follows the last dot (the whole name when there is no dot), and the
  name without it is what precedes the last dot (nothing when there is no dot).
\<close>

definition final_segment :: "string \<Rightarrow> string" where
  "final_segment n = rev (takeWhile (\<lambda>x. x \<noteq> dot) (rev n))"

definition without_final_segment :: "string \<Rightarrow> string" where
  "without_final_segment n = rev (drop 1 (dropWhile (\<lambda>x. x \<noteq> dot) (rev n)))"

definition accepted_extension :: "string \<Rightarrow> bool" where
  "accepted_extension n \<longleftrightarrow>
     toLowerCase (final_segment n) = ''js'' \<or> toLowerCase (final_segment n) = ''ts''"

text \<open>
  The destinations of a configuration, as the generator writes them, and a listing that
  is fixed: writing the destination files (of a store that has at least the files of
  \<open>s0\<close> and differs from it at destinations only) changes what no configured folder
  lists.
\<close>

definition destinations :: "options \<Rightarrow> string list" where
  "destinations opts = map (\<lambda>(folder, target). cleanupPath target) (generate opts)"

definition reachable_files :: "options \<Rightarrow> files \<Rightarrow> files \<Rightarrow> bool" where
  "reachable_files opts s0 s \<longleftrightarrow>
     dom s0 \<subseteq> dom s \<and> (\<forall>p. p \<notin> set (destinations opts) \<longrightarrow> s p = s0 p)"

definition listing_fixed ::
  "options \<Rightarrow> (files \<Rightarrow> string \<Rightarrow> fault + dirent list) \<Rightarrow> files \<Rightarrow> bool" where
  "listing_fixed opts ls s0 \<longleftrightarrow>
     (\<forall>s. reachable_files opts s0 s \<longrightarrow>
        (\<forall>folder \<in> fst ` set (generate opts). ls s folder = ls s0 folder))"



section \<open>Example configurations\<close>

text \<open>
  A world in which every write and every command succeeds and \<^verbatim>\<open>path.relative\<close> gives
  back its second argument. Two mappings that write one destination outside the folders
  they scan, whose listing no write changes. Two mappings with different destinations,
  the first inside the folder it scans, which lists the destination file once it exists.
\<close>

definition example_world :: world where
  "example_world =
     \<lparr>readdir = (\<lambda>folder. Inr []), relative = (\<lambda>from to. to),
      writeFile_fault = (\<lambda>p. None), exec_error = (\<lambda>c. None)\<rparr>"



definition separate_options :: options where
  "separate_options =
     \<lparr>generate = [(''a'', ''a/api.ts''), (''b'', ''out.ts'')], autoformat = None,
      autoformatCommand = None, quotes = None\<rparr>"

definition inside_listing :: "files \<Rightarrow> string \<Rightarrow> fault + dirent list" where
  "inside_listing s folder =
     (if folder = ''a'' then
        Inr (\<lparr>name = ''index.ts'', parentPath = ''a'', isDirectory = False\<rparr> #
             (if s ''a/api.ts'' = None then []
              else [\<lparr>name = ''api.ts'', parentPath = ''a'', isDirectory = False\<rparr>]))
      else Inr [])"

section \<open>Properties of the library operations\<close>

subsection \<open>split and join\<close>

lemma split_str_nonempty: "split_str c s \<noteq> []"
  by (induction s) (auto split: list.splits)

lemma split_str_no_separator: "c \<notin> set s \<Longrightarrow> split_str c s = [s]"
  by (induction s) auto

lemma split_str_last_separator:
  "c \<notin> set b \<Longrightarrow> split_str c (a @ c # b) = split_str c a @ [b]"
proof (induction a)
  case Nil
  then show ?case by (simp add: split_str_no_separator)
next
  case (Cons x a)
  obtain p ps where ps: "split_str c a = p # ps"
    using split_str_nonempty [of c a] by (cases "split_str c a") auto
  with Cons show ?case by simp
qed

lemma join_split_str: "join_str [c] (split_str c s) = s"
proof (induction s)
  case Nil
  then show ?case by simp
next
  case (Cons x s)
  obtain p ps where ps: "split_str c s = p # ps"
    using split_str_nonempty [of c s] by (cases "split_str c s") auto
  show ?case
  proof (cases "x = c")
    case True
    with Cons ps show ?thesis by simp
  next
    case False
    with Cons ps show ?thesis by (cases ps) auto
  qed
qed

lemma last_split_str: "last (split_str dot n) = final_segment n"
proof (cases "dot \<in> set n")
  case False
  then have tw: "takeWhile (\<lambda>x. x \<noteq> dot) (rev n) = rev n"
    by (auto intro: takeWhile_eq_all_conv [THEN iffD2])
  show ?thesis
    unfolding final_segment_def tw by (simp add: split_str_no_separator False)
next
  case True
  then obtain a b where n: "n = a @ dot # b" and b: "dot \<notin> set b"
    using split_list_last by fastforce
  have "takeWhile (\<lambda>x. x \<noteq> dot) (rev b @ dot # rev a) = rev b"
    using b by (subst takeWhile_append2) auto
  with n b show ?thesis
    by (simp add: split_str_last_separator final_segment_def)
qed

lemma butlast_split_str:
  "join_str [dot] (butlast (split_str dot n)) = without_final_segment n"
proof (cases "dot \<in> set n")
  case False
  then have dw: "dropWhile (\<lambda>x. x \<noteq> dot) (rev n) = []"
    by auto
  show ?thesis
    unfolding without_final_segment_def dw by (simp add: split_str_no_separator False)
next
  case True
  then obtain a b where n: "n = a @ dot # b" and b: "dot \<notin> set b"
    using split_list_last by fastforce
  have "dropWhile (\<lambda>x. x \<noteq> dot) (rev b @ dot # rev a) = dot # rev a"
    using b by (subst dropWhile_append2) auto
  with n b show ?thesis
    by (simp add: split_str_last_separator without_final_segment_def join_split_str)
qed

lemma name_decomposition:
  "without_final_segment n @ (if dot \<in> set n then [dot] else []) @ final_segment n = n"
proof (cases "dot \<in> set n")
  case False
  then have tw: "takeWhile (\<lambda>x. x \<noteq> dot) (rev n) = rev n"
    and dw: "dropWhile (\<lambda>x. x \<noteq> dot) (rev n) = []"
    by (auto intro: takeWhile_eq_all_conv [THEN iffD2])
  show ?thesis
    unfolding without_final_segment_def final_segment_def tw dw by (simp add: False)
next
  case True
  then obtain a b where n: "n = a @ dot # b" and b: "dot \<notin> set b"
    using split_list_last by fastforce
  have "takeWhile (\<lambda>x. x \<noteq> dot) (rev b @ dot # rev a) = rev b"
    and "dropWhile (\<lambda>x. x \<noteq> dot) (rev b @ dot # rev a) = dot # rev a"
    using b by (subst takeWhile_append2 dropWhile_append2; auto)+
  then show ?thesis
    unfolding without_final_segment_def final_segment_def n by simp
qed

lemma final_segment_no_dot: "dot \<notin> set (final_segment n)"
  unfolding final_segment_def using set_takeWhileD [of dot "\<lambda>x. x \<noteq> dot" "rev n"] by auto

subsection \<open>map with index\<close>

lemma map_from_eq: "map_from f i xs = map (\<lambda>k. f (xs ! k) (i + k)) [0..<length xs]"
proof (induction xs arbitrary: i)
  case Nil
  then show ?case by simp
next
  case (Cons x xs)
  have "[0..<length (x # xs)] = 0 # map Suc [0..<length xs]"
    by (simp add: map_Suc_upt upt_conv_Cons del: upt_Suc)
  with Cons show ?case
    by (simp add: comp_def del: upt_Suc)
qed

lemma map_index_eq: "map_index f xs = map (\<lambda>k. f (xs ! k) k) [0..<length xs]"
  by (simp add: map_index_def map_from_eq)


subsection \<open>decimal text\<close>





subsection \<open>the loop over the files\<close>

lemma push_import_eq:
  "push_import rel dp f acc =
     (if accepted_extension (file_name f)
      then acc @ [''./'' @ cleanupPath (rel dp (file_path f)) @ ''/'' @
                   without_final_segment (file_name f)]
      else acc)"
proof -
  have "toLowerCase (final_segment (file_name f)) = [] \<Longrightarrow> \<not> accepted_extension (file_name f)"
    by (simp add: accepted_extension_def)
  then show ?thesis
    by (auto simp: push_import_def pop_def split_str_nonempty last_split_str butlast_split_str
          accepted_extension_def Let_def)
qed

lemma fold_push_import:
  "fold (push_import rel dp) fs acc =
     acc @ map (\<lambda>f. ''./'' @ cleanupPath (rel dp (file_path f)) @ ''/'' @
                   without_final_segment (file_name f))
             (filter (\<lambda>f. accepted_extension (file_name f)) fs)"
  by (induction fs arbitrary: acc) (simp_all add: push_import_eq)

lemma listOfImports_of_eq:
  "listOfImports_of rel dp entries =
     map (\<lambda>d. ''./'' @ cleanupPath (rel dp (cleanupPath (parentPath d))) @ ''/'' @
                   without_final_segment (name d))
       (filter (\<lambda>d. \<not> isDirectory d \<and> accepted_extension (name d)) entries)"
  unfolding listOfImports_of_def scan_files_def fold_push_import
  by (induction entries) auto

subsection \<open>lines, path clean-up and the store\<close>

lemma join_str_Cons: "ys \<noteq> [] \<Longrightarrow> join_str sep (x # ys) = x @ sep @ join_str sep ys"
  by (cases ys) simp_all

lemma join_lines_tail:
  "join_str [newline] (ls @ [[], e, []]) =
     concat (map (\<lambda>l. l @ [newline]) ls) @ [newline] @ e @ [newline]"
  by (induction ls) (simp_all add: join_str_Cons)

lemma replaceAll_char:
  "replaceAll [a] [b] s = map (\<lambda>c. if c = a then b else c) s"
proof (induction s)
  case Nil
  then show ?case by (simp add: replaceAll.simps)
next
  case (Cons x s)
  then show ?case by (simp add: replaceAll.simps [of "[a]" "[b]" "x # s"])
qed

lemma cleanupPath_no_backslash: "backslash \<notin> set (cleanupPath p)"
  by (auto simp: cleanupPath_def replaceAll_char slash_def backslash_def)

lemma cleanupPath_Nil: "cleanupPath [] = []"
  by (simp add: cleanupPath_def replaceAll.simps)

lemma written_handle_mapping:
  "written (handle_mapping opts w folder target) =
     (case readdir w folder of
        Inl e \<Rightarrow> None
      | Inr entries \<Rightarrow>
          (case writeFile_fault w (cleanupPath target) of
             Some e \<Rightarrow> None
           | None \<Rightarrow>
               Some (cleanupPath target,
                     generatedJsTsFile (quotes opts)
                       (listOfImports_of (relative w) (destinationPath_of (cleanupPath target))
                          entries))))"
  by (simp add: handle_mapping_def Let_def split: sum.splits option.splits)

subsection \<open>the destination directory\<close>

lemma destinationPath_of_last_slash:
  "slash \<notin> set b \<Longrightarrow> destinationPath_of (a @ slash # b) = a"
  by (simp add: destinationPath_of_def pop_def split_str_last_separator split_str_nonempty
        join_split_str)

lemma destinationPath_of_no_slash:
  "slash \<notin> set d \<Longrightarrow> destinationPath_of d = []"
  by (simp add: destinationPath_of_def pop_def split_str_no_separator)

subsection \<open>the trigger under every schedule\<close>















subsection \<open>the example configurations\<close>

lemma cleanupPath_examples:
  "cleanupPath ''out.ts'' = ''out.ts''" "cleanupPath ''a/api.ts'' = ''a/api.ts''"
  "cleanupPath ''a'' = ''a''"
  by (simp_all add: cleanupPath_def replaceAll.simps slash_def dot_def backslash_def)


lemma written_inside:
  "written (handle_mapping separate_options (world_at example_world inside_listing s)
      ''a'' ''a/api.ts'') =
     Some (''a/api.ts'',
           if s ''a/api.ts'' = None then
             ''import route1 from '' @ [single_quote] @ ''./a/index'' @ [single_quote] @ '';'' @
             [newline, newline] @ ''export default [route1];'' @ [newline]
           else
             ''import route1 from '' @ [single_quote] @ ''./a/index'' @ [single_quote] @ '';'' @
             [newline] @
             ''import route2 from '' @ [single_quote] @ ''./a/api'' @ [single_quote] @ '';'' @
             [newline, newline] @ ''export default [route1, route2];'' @ [newline])"
proof -
  have l: "listOfImports_of (\<lambda>from to. to) (destinationPath_of ''a/api.ts'')
      [\<lparr>name = ''index.ts'', parentPath = ''a'', isDirectory = False\<rparr>] = [''./a/index'']"
    "listOfImports_of (\<lambda>from to. to) (destinationPath_of ''a/api.ts'')
      [\<lparr>name = ''index.ts'', parentPath = ''a'', isDirectory = False\<rparr>,
       \<lparr>name = ''api.ts'', parentPath = ''a'', isDirectory = False\<rparr>] =
       [''./a/index'', ''./a/api'']"
    by (simp_all add: listOfImports_of_def scan_files_def push_import_def pop_def dot_def
          toLowerCase_def toLowerCase_char_def cleanupPath_examples)
  have g: "generatedJsTsFile None [''./a/index''] =
      ''import route1 from '' @ [single_quote] @ ''./a/index'' @ [single_quote] @ '';'' @
           [newline, newline] @ ''export default [route1];'' @ [newline]"
    "generatedJsTsFile None [''./a/index'', ''./a/api''] =
      ''import route1 from '' @ [single_quote] @ ''./a/index'' @ [single_quote] @ '';'' @
             [newline] @
             ''import route2 from '' @ [single_quote] @ ''./a/api'' @ [single_quote] @ '';'' @
             [newline, newline] @ ''export default [route1, route2];'' @ [newline]"
    by (simp_all add: generatedJsTsFile_def importsListFormatted_def import_statements_def
          export_line_def export_names_def map_index_def import_line_def quote_of_def
          string_of_nat.simps digit_char_def)
  show ?thesis
    unfolding written_handle_mapping cleanupPath_examples
    by (simp add: world_at_def example_world_def inside_listing_def separate_options_def l g)
qed

lemma written_inside_other:
  "written (handle_mapping separate_options (world_at example_world inside_listing s)
      ''b'' ''out.ts'') =
     Some (''out.ts'', [newline] @ ''export default [];'' @ [newline])"
proof -
  have g: "generatedJsTsFile None [] = [newline] @ ''export default [];'' @ [newline]"
    by (simp add: generatedJsTsFile_def importsListFormatted_def import_statements_def
          export_line_def export_names_def map_index_def)
  show ?thesis
    unfolding written_handle_mapping cleanupPath_examples
    by (simp add: world_at_def example_world_def inside_listing_def separate_options_def
          listOfImports_of_def scan_files_def g)
qed

lemma first_generation_changes_listing:
  "\<not> listing_fixed separate_options inside_listing Map.empty"
  "files_now (handleHotUpdate separate_options example_world inside_listing
      [Scan 0, Complete 0, Scan 1, Complete 1]
      (files_now (handleHotUpdate separate_options example_world inside_listing
         [Scan 0, Complete 0, Scan 1, Complete 1] Map.empty))) \<noteq>
   files_now (handleHotUpdate separate_options example_world inside_listing
      [Scan 0, Complete 0, Scan 1, Complete 1] Map.empty)"
proof -
  have g: "generate separate_options = [(''a'', ''a/api.ts''), (''b'', ''out.ts'')]"
    by (simp add: separate_options_def)
  have r: "reachable_files separate_options Map.empty [''a/api.ts'' \<mapsto> ''new'']"
    by (simp add: reachable_files_def destinations_def g cleanupPath_examples)
  have "inside_listing [''a/api.ts'' \<mapsto> ''new''] ''a'' \<noteq> inside_listing Map.empty ''a''"
    by (simp add: inside_listing_def)
  with r show "\<not> listing_fixed separate_options inside_listing Map.empty"
    unfolding listing_fixed_def g by force
  have one: "files_now (handleHotUpdate separate_options example_world inside_listing
         [Scan 0, Complete 0, Scan 1, Complete 1] Map.empty) ''a/api.ts'' =
      Some (''import route1 from '' @ [single_quote] @ ''./a/index'' @ [single_quote] @ '';'' @
         [newline, newline] @ ''export default [route1];'' @ [newline])"
    by (simp add: handleHotUpdate_def do_step_def g commit_def written_inside
          written_inside_other)
  have two: "files_now (handleHotUpdate separate_options example_world inside_listing
         [Scan 0, Complete 0, Scan 1, Complete 1] s) ''a/api.ts'' =
      Some (''import route1 from '' @ [single_quote] @ ''./a/index'' @ [single_quote] @ '';'' @
             [newline] @
             ''import route2 from '' @ [single_quote] @ ''./a/api'' @ [single_quote] @ '';'' @
             [newline, newline] @ ''export default [route1, route2];'' @ [newline])"
    if "s ''a/api.ts'' \<noteq> None" for s
    using that
    by (simp add: handleHotUpdate_def do_step_def g commit_def written_inside
          written_inside_other)
  show "files_now (handleHotUpdate separate_options example_world inside_listing
      [Scan 0, Complete 0, Scan 1, Complete 1]
      (files_now (handleHotUpdate separate_options example_world inside_listing
         [Scan 0, Complete 0, Scan 1, Complete 1] Map.empty))) \<noteq>
   files_now (handleHotUpdate separate_options example_world inside_listing
      [Scan 0, Complete 0, Scan 1, Complete 1] Map.empty)"
  proof
    assume e: "files_now (handleHotUpdate separate_options example_world inside_listing
      [Scan 0, Complete 0, Scan 1, Complete 1]
      (files_now (handleHotUpdate separate_options example_world inside_listing
         [Scan 0, Complete 0, Scan 1, Complete 1] Map.empty))) =
      files_now (handleHotUpdate separate_options example_world inside_listing
      [Scan 0, Complete 0, Scan 1, Complete 1] Map.empty)"
    have there: "files_now (handleHotUpdate separate_options example_world inside_listing
         [Scan 0, Complete 0, Scan 1, Complete 1] Map.empty) ''a/api.ts'' \<noteq> None"
      unfolding one by simp
    have "files_now (handleHotUpdate separate_options example_world inside_listing
      [Scan 0, Complete 0, Scan 1, Complete 1]
      (files_now (handleHotUpdate separate_options example_world inside_listing
         [Scan 0, Complete 0, Scan 1, Complete 1] Map.empty))) ''a/api.ts'' =
      files_now (handleHotUpdate separate_options example_world inside_listing
      [Scan 0, Complete 0, Scan 1, Complete 1] Map.empty) ''a/api.ts''"
      using e by simp
    then show False
      unfolding two [of "files_now (handleHotUpdate separate_options example_world
          inside_listing [Scan 0, Complete 0, Scan 1, Complete 1] Map.empty)", OF there] one
      by (simp add: newline_def)
  qed
qed

section \<open>Properties of the generator\<close>



text \<open>
  Claim C3. The manifest text is the import lines, an empty line, the export line and
  an empty line, joined with one newline character: that is, every import line
  followed by a newline, then a newline, the export line and a newline. The quote
  character is the single quote when the option is absent, and otherwise the one
  configured.
\<close>

theorem manifest_text:
  "generatedJsTsFile q xs =
     join_str [newline]
       (map (\<lambda>k. ''import route'' @ string_of_nat (Suc k) @ '' from '' @ quote_of q @ xs ! k @
                 quote_of q @ '';'') [0..<length xs] @
        [[],
         ''export default ['' @
           join_str '', '' (map (\<lambda>k. ''route'' @ string_of_nat (Suc k)) [0..<length xs]) @ ''];'',
         []])
   \<and> generatedJsTsFile q xs =
     concat (map (\<lambda>k. ''import route'' @ string_of_nat (Suc k) @ '' from '' @ quote_of q @
                      xs ! k @ quote_of q @ '';'' @ [newline]) [0..<length xs]) @
     [newline] @
     ''export default ['' @
       join_str '', '' (map (\<lambda>k. ''route'' @ string_of_nat (Suc k)) [0..<length xs]) @ ''];'' @
     [newline]
   \<and> quote_of None = [single_quote]
   \<and> quote_of (Some SingleQuote) = [single_quote]
   \<and> quote_of (Some DoubleQuote) = [double_quote]"
proof -
  have lines: "importsListFormatted q xs =
       map (\<lambda>k. ''import route'' @ string_of_nat (Suc k) @ '' from '' @ quote_of q @ xs ! k @
                 quote_of q @ '';'') [0..<length xs] @
        [[],
         ''export default ['' @
           join_str '', '' (map (\<lambda>k. ''route'' @ string_of_nat (Suc k)) [0..<length xs]) @ ''];'',
         []]"
    by (simp add: importsListFormatted_def import_statements_def export_line_def
          export_names_def map_index_eq import_line_def)
  show ?thesis
    unfolding generatedJsTsFile_def lines join_lines_tail
    by (simp add: quote_of_def comp_def)
qed

text \<open>
  Claim C4. For the destination \<^verbatim>\<open>/api.ts\<close>, a file directly under the root, the
  directory the generator computes is the empty string and not \<^verbatim>\<open>/\<close>: the specifier of
  a file in \<^verbatim>\<open>/routes\<close> is built from \<^verbatim>\<open>path.relative\<close> of the empty string, which the
  host takes for the working directory, and not from the destination's containing
  directory. For the destination \<^verbatim>\<open>/out/api.ts\<close> the directory is \<^verbatim>\<open>/out\<close>.
\<close>

theorem root_destination_directory:
  "destinationPath_of (cleanupPath ''/api.ts'') = []
   \<and> listOfImports_of rel (destinationPath_of (cleanupPath ''/api.ts''))
        [\<lparr>name = ''index.ts'', parentPath = ''/routes'', isDirectory = False\<rparr>] =
       [''./'' @ cleanupPath (rel [] ''/routes'') @ ''/index'']
   \<and> destinationPath_of (cleanupPath ''/out/api.ts'') = ''/out''
   \<and> listOfImports_of rel (destinationPath_of (cleanupPath ''/out/api.ts''))
        [\<lparr>name = ''index.ts'', parentPath = ''/routes'', isDirectory = False\<rparr>] =
       [''./'' @ cleanupPath (rel ''/out'' ''/routes'') @ ''/index'']"
proof -
  have c: "cleanupPath ''/api.ts'' = ''/api.ts''" "cleanupPath ''/out/api.ts'' = ''/out/api.ts''"
    "cleanupPath ''/routes'' = ''/routes''"
    by (simp_all add: cleanupPath_def replaceAll.simps slash_def dot_def backslash_def)
  have d: "destinationPath_of ''/api.ts'' = []" "destinationPath_of ''/out/api.ts'' = ''/out''"
    by (simp_all add: destinationPath_of_def pop_def slash_def)
  have l: "listOfImports_of rel dp
        [\<lparr>name = ''index.ts'', parentPath = ''/routes'', isDirectory = False\<rparr>] =
       [''./'' @ cleanupPath (rel dp ''/routes'') @ ''/index'']" for dp
    by (simp add: listOfImports_of_def scan_files_def push_import_def pop_def dot_def
          toLowerCase_def toLowerCase_char_def c)
  show ?thesis
    unfolding c d l by simp
qed

text \<open>
  Claim C5. A file whose whole name is \<^verbatim>\<open>ts\<close> or \<^verbatim>\<open>JS\<close> has no dot in its name and is
  not skipped: \<^verbatim>\<open>split\<close> gives the name as its only piece, \<^verbatim>\<open>pop\<close> takes it for the
  extension, and the entry pushed ends in \<^verbatim>\<open>/\<close> followed by the empty base name.
\<close>

theorem extensionless_name_imported:
  "dot \<notin> set ''ts''
   \<and> listOfImports_of rel dp [\<lparr>name = ''ts'', parentPath = p, isDirectory = False\<rparr>] =
       [''./'' @ cleanupPath (rel dp (cleanupPath p)) @ ''/'']
   \<and> listOfImports_of rel dp [\<lparr>name = ''JS'', parentPath = p, isDirectory = False\<rparr>] =
       [''./'' @ cleanupPath (rel dp (cleanupPath p)) @ ''/'']"
  by (simp add: listOfImports_of_def scan_files_def push_import_def pop_def dot_def
        toLowerCase_def toLowerCase_char_def)

text \<open>
  Claim C6. The clean-up leaves a \<^verbatim>\<open>/./\<close> in the path \<^verbatim>\<open>a/././b\<close>, where the second
  occurrence starts inside the first and is not found, and in a path whose \<^verbatim>\<open>.\<close>
  segment stands between backslashes, which become slashes only after the search.
\<close>

theorem cleanupPath_leaves_dot_segment:
  "cleanupPath ''a/././b'' = ''a/./b''
   \<and> cleanupPath [CHR ''a'', backslash, dot, backslash, CHR ''b''] = ''a/./b''"
  by (simp add: cleanupPath_def replaceAll.simps slash_def dot_def backslash_def)




text \<open>
  Claim C8. When the listing has no entry that passes the filter and the write
  completes, there is no import statement and the text written to the destination is
  an empty line, the line \<^verbatim>\<open>export default [];\<close> and an empty line.
\<close>

theorem empty_manifest:
  assumes "readdir w folder = Inr entries"
    and "writeFile_fault w (cleanupPath target) = None"
    and "filter (\<lambda>d. \<not> isDirectory d \<and> accepted_extension (name d)) entries = []"
  shows "import_statements (quotes opts)
           (listOfImports_of (relative w) (destinationPath_of (cleanupPath target)) entries) = []
    \<and> written (handle_mapping opts w folder target) =
        Some (cleanupPath target, [newline] @ ''export default [];'' @ [newline])
    \<and> WriteFile (cleanupPath target) ([newline] @ ''export default [];'' @ [newline])
        \<in> set (effects (handle_mapping opts w folder target))"
proof -
  have none: "listOfImports_of (relative w) (destinationPath_of (cleanupPath target)) entries = []"
    using assms(3) by (simp add: listOfImports_of_eq)
  have manifest: "generatedJsTsFile (quotes opts) [] = [newline] @ ''export default [];'' @ [newline]"
    by (simp add: generatedJsTsFile_def importsListFormatted_def import_statements_def
          export_line_def export_names_def map_index_def)
  show ?thesis
    using assms(1,2) none manifest
    by (simp add: handle_mapping_def Let_def import_statements_def map_index_def)
qed

theorem empty_manifest_witness:
  "readdir \<lparr>readdir = (\<lambda>_. Inr [\<lparr>name = ''README'', parentPath = ''./routes'', isDirectory = False\<rparr>,
                                   \<lparr>name = ''hi.ts'', parentPath = ''./routes'', isDirectory = True\<rparr>]),
            relative = (\<lambda>a b. b), writeFile_fault = (\<lambda>_. None), exec_error = (\<lambda>_. None)\<rparr>
      ''./routes'' =
     Inr [\<lparr>name = ''README'', parentPath = ''./routes'', isDirectory = False\<rparr>,
          \<lparr>name = ''hi.ts'', parentPath = ''./routes'', isDirectory = True\<rparr>]
   \<and> filter (\<lambda>d. \<not> isDirectory d \<and> accepted_extension (name d))
        [\<lparr>name = ''README'', parentPath = ''./routes'', isDirectory = False\<rparr>,
         \<lparr>name = ''hi.ts'', parentPath = ''./routes'', isDirectory = True\<rparr>] = []
   \<and> written (handle_mapping
        \<lparr>generate = [(''./routes'', ''./routes/api.ts'')], autoformat = None,
         autoformatCommand = None, quotes = None\<rparr>
        \<lparr>readdir = (\<lambda>_. Inr [\<lparr>name = ''README'', parentPath = ''./routes'', isDirectory = False\<rparr>,
                               \<lparr>name = ''hi.ts'', parentPath = ''./routes'', isDirectory = True\<rparr>]),
         relative = (\<lambda>a b. b), writeFile_fault = (\<lambda>_. None), exec_error = (\<lambda>_. None)\<rparr>
        ''./routes'' ''./routes/api.ts'') =
      Some (''./routes/api.ts'', newline # ''export default [];'' @ [newline])"
proof -
  let ?es = "[\<lparr>name = ''README'', parentPath = ''./routes'', isDirectory = False\<rparr>,
              \<lparr>name = ''hi.ts'', parentPath = ''./routes'', isDirectory = True\<rparr>]"
  let ?w = "\<lparr>readdir = (\<lambda>_. Inr ?es), relative = (\<lambda>a b. b),
             writeFile_fault = (\<lambda>_. None), exec_error = (\<lambda>_. None)\<rparr>"
  have c: "cleanupPath ''./routes/api.ts'' = ''./routes/api.ts''"
    by (simp add: cleanupPath_def replaceAll.simps slash_def dot_def backslash_def)
  have h1: "readdir ?w ''./routes'' = Inr ?es"
    by simp
  have h2: "writeFile_fault ?w (cleanupPath ''./routes/api.ts'') = None"
    by simp
  have h3: "filter (\<lambda>d. \<not> isDirectory d \<and> accepted_extension (name d)) ?es = []"
    by (simp add: accepted_extension_def final_segment_def dot_def toLowerCase_def
          toLowerCase_char_def)
  show ?thesis
    using empty_manifest [OF h1 h2 h3] h3 c by simp
qed

text \<open>
  Claim C9. When the formatter command is executed, the \<open>autoformat\<close> option is true,
  the command is the configured one or else the default on the destination, the write
  has completed and comes just before the command among the calls made, the promise of
  the mapping is fulfilled, and the completion callback throws the error it receives
  when there is one and returns normally when there is none.
\<close>

theorem formatter_after_write:
  assumes "Exec c \<in> set (effects (handle_mapping opts w folder target))"
  shows "autoformat opts = Some True
    \<and> c = or_else (autoformatCommand opts) (default_command (cleanupPath target))
    \<and> writeFile_fault w (cleanupPath target) = None
    \<and> (\<exists>t. effects (handle_mapping opts w folder target) =
              [ReadDir folder, WriteFile (cleanupPath target) t, Exec c]
           \<and> written (handle_mapping opts w folder target) = Some (cleanupPath target, t))
    \<and> promise (handle_mapping opts w folder target) = Fulfilled
    \<and> formatter (handle_mapping opts w folder target) =
        Some (case exec_error w c of None \<Rightarrow> Returned | Some err \<Rightarrow> Thrown err)"
proof (cases "readdir w folder")
  case (Inl e)
  with assms show ?thesis
    by (simp add: handle_mapping_def Let_def)
next
  case (Inr entries)
  show ?thesis
  proof (cases "writeFile_fault w (cleanupPath target)")
    case (Some e)
    with Inr assms show ?thesis
      by (simp add: handle_mapping_def Let_def)
  next
    case None
    show ?thesis
    proof (cases "autoformat opts = Some True")
      case True
      with Inr None assms show ?thesis
        by (simp add: handle_mapping_def Let_def)
    next
      case False
      with Inr None assms show ?thesis
        by (simp add: handle_mapping_def Let_def)
    qed
  qed
qed

theorem formatter_after_write_witness:
  "Exec ''fmt''
     \<in> set (effects (handle_mapping
          \<lparr>generate = [(''src'', ''out.ts'')], autoformat = Some True,
           autoformatCommand = Some ''fmt'', quotes = None\<rparr>
          \<lparr>readdir = (\<lambda>_. Inr []), relative = (\<lambda>a b. b), writeFile_fault = (\<lambda>_. None),
           exec_error = (\<lambda>_. Some (Fault ''exit 2''))\<rparr> ''src'' ''out.ts''))
   \<and> formatter (handle_mapping
          \<lparr>generate = [(''src'', ''out.ts'')], autoformat = Some True,
           autoformatCommand = Some ''fmt'', quotes = None\<rparr>
          \<lparr>readdir = (\<lambda>_. Inr []), relative = (\<lambda>a b. b), writeFile_fault = (\<lambda>_. None),
           exec_error = (\<lambda>_. Some (Fault ''exit 2''))\<rparr> ''src'' ''out.ts'') =
       Some (Thrown (Fault ''exit 2''))"
proof -
  let ?opts = "\<lparr>generate = [(''src'', ''out.ts'')], autoformat = Some True,
           autoformatCommand = Some ''fmt'', quotes = None\<rparr>"
  let ?w = "\<lparr>readdir = (\<lambda>_. Inr []), relative = (\<lambda>a b. b), writeFile_fault = (\<lambda>_. None),
           exec_error = (\<lambda>_. Some (Fault ''exit 2''))\<rparr>"
  have h: "Exec ''fmt'' \<in> set (effects (handle_mapping ?opts ?w ''src'' ''out.ts''))"
    by (simp add: handle_mapping_def Let_def or_else_def)
  from formatter_after_write [OF h] h show ?thesis
    by simp
qed

text \<open>
  Claim C10. For an accepted file whose cleaned-up directory is the destination's
  directory, \<^verbatim>\<open>path.relative\<close> giving the empty string for equal paths, the import
  entry is \<^verbatim>\<open>./\<close>, then \<^verbatim>\<open>/\<close>, then the name without its final segment: it starts with
  \<^verbatim>\<open>.//\<close>.
\<close>

theorem same_directory_double_slash:
  assumes "\<not> isDirectory d"
    and "accepted_extension (name d)"
    and "cleanupPath (parentPath d) = dp"
    and "rel dp dp = []"
  shows "listOfImports_of rel dp [d] = [''./'' @ ''/'' @ without_final_segment (name d)]
    \<and> take 3 (hd (listOfImports_of rel dp [d])) = ''.//''"
  using assms by (simp add: listOfImports_of_eq cleanupPath_Nil)

theorem same_directory_double_slash_witness:
  "\<not> isDirectory \<lparr>name = ''index.ts'', parentPath = ''./routes'', isDirectory = False\<rparr>
   \<and> accepted_extension (name \<lparr>name = ''index.ts'', parentPath = ''./routes'', isDirectory = False\<rparr>)
   \<and> cleanupPath (parentPath \<lparr>name = ''index.ts'', parentPath = ''./routes'', isDirectory = False\<rparr>) =
       destinationPath_of (cleanupPath ''./routes/api.ts'')
   \<and> listOfImports_of (\<lambda>a b. if a = b then [] else b)
        (destinationPath_of (cleanupPath ''./routes/api.ts''))
        [\<lparr>name = ''index.ts'', parentPath = ''./routes'', isDirectory = False\<rparr>] = [''.//index'']"
proof -
  let ?d = "\<lparr>name = ''index.ts'', parentPath = ''./routes'', isDirectory = False\<rparr>"
  let ?rel = "\<lambda>a b :: string. if a = b then [] else b"
  have dp: "destinationPath_of (cleanupPath ''./routes/api.ts'') = ''./routes''"
    by (simp add: destinationPath_of_def cleanupPath_def replaceAll.simps pop_def slash_def
          dot_def backslash_def)
  have h1: "\<not> isDirectory ?d"
    by simp
  have h2: "accepted_extension (name ?d)"
    by (simp add: accepted_extension_def final_segment_def dot_def toLowerCase_def
          toLowerCase_char_def)
  have h3: "cleanupPath (parentPath ?d) = ''./routes''"
    by (simp add: cleanupPath_def replaceAll.simps slash_def dot_def backslash_def)
  have h4: "?rel ''./routes'' ''./routes'' = []"
    by simp
  have n: "without_final_segment ''index.ts'' = ''index''"
    by (simp add: without_final_segment_def dot_def)
  from same_directory_double_slash [of ?d "''./routes''" ?rel, OF h1 h2 h3 h4] h2 h3 n
  show ?thesis
    unfolding dp by simp
qed

end
